theory Spec2Isabelle
  imports Main "HOL-Library.Sublist"
begin

section \<open>The interactive command prompt of tswow\<close>

text \<open>
  This theory embeds the command interpreter of the tswow prompt: the tokenizer
  \<open>splitArgs\<close>, the class \<open>Command\<close> (a tree of named commands with
  \<open>addCommand\<close>, \<open>removeCommand\<close>, \<open>findCommand\<close> and \<open>handle\<close>) and the namespace
  \<open>commands\<close> (\<open>sendCommand\<close>, \<open>addCustomCommand\<close> and the built-in commands
  \<open>print\<close>, \<open>command\<close> and \<open>help\<close>).

  Strings are lists of characters. The program only ever compares characters with
  the double quote, the backslash, the space and the ampersand, so nothing depends on
  how characters outside ASCII are encoded.
\<close>

subsection \<open>Strings of the JavaScript library\<close>

definition dquote :: char where
  "dquote = CHR 0x22"

definition backslash :: char where
  "backslash = CHR 0x5C"

text \<open>
  \<open>String.prototype.split\<close> with a string separator. The program calls it with the
  separators \<open>' '\<close> and \<open>'&&'\<close> only; the model is for a non-empty separator. The
  text is scanned from the left, and the leftmost occurrence of the separator ends a piece.
\<close>

fun jsSplit :: "string \<Rightarrow> string \<Rightarrow> string list" where
  "jsSplit sep [] = [[]]"
| "jsSplit sep (c # cs) =
     (if sep \<noteq> [] \<and> prefix sep (c # cs)
      then [] # jsSplit sep (drop (length sep) (c # cs))
      else (case jsSplit sep cs of
              [] \<Rightarrow> [[c]]
            | p # ps \<Rightarrow> (c # p) # ps))"

text \<open>\<open>Array.prototype.join\<close> on an array of strings.\<close>

fun jsJoin :: "string \<Rightarrow> string list \<Rightarrow> string" where
  "jsJoin sep [] = []"
| "jsJoin sep [x] = x"
| "jsJoin sep (x # y # ys) = x @ sep @ jsJoin sep (y # ys)"

text \<open>
  \<open>xs[0]\<close> where the value is used as a property key or inside a template string:
  on an empty array it is \<open>undefined\<close>, which both uses turn into the text
  \<open>undefined\<close>.
\<close>

definition firstArg :: "string list \<Rightarrow> string" where
  "firstArg xs = (case xs of [] \<Rightarrow> ''undefined'' | x # _ \<Rightarrow> x)"

subsection \<open>The tokenizer\<close>

text \<open>
  The loop of \<open>splitArgs\<close> over the characters of \<open>command\<close>, with its four
  variables \<open>args\<close>, \<open>inString\<close>, \<open>escaped\<close> and \<open>cur\<close>. The branches are those of
  the source, in its order. No branch assigns \<open>false\<close> to \<open>escaped\<close>.
\<close>

fun splitArgsLoop ::
  "string list \<Rightarrow> bool \<Rightarrow> bool \<Rightarrow> string \<Rightarrow> string \<Rightarrow> string list \<times> bool \<times> bool \<times> string" where
  "splitArgsLoop args inString escaped cur [] = (args, inString, escaped, cur)"
| "splitArgsLoop args inString escaped cur (ch # rest) =
     (if ch = dquote \<and> \<not> escaped then splitArgsLoop args (\<not> inString) escaped cur rest
      else if ch = backslash \<and> inString \<and> \<not> escaped then splitArgsLoop args inString True cur rest
      else if ch = CHR '' '' \<and> \<not> inString then splitArgsLoop (args @ [cur]) inString escaped [] rest
      else splitArgsLoop args inString escaped (cur @ [ch]) rest)"

definition splitArgs :: "string \<Rightarrow> string list" where
  "splitArgs command =
     (case splitArgsLoop [] False False [] command of
        (args, inString, escaped, cur) \<Rightarrow>
          filter (\<lambda>x. length x > 0) (if length cur > 0 then args @ [cur] else args))"

subsection \<open>Exceptions, terminal output and handlers\<close>

text \<open>
  What a \<open>throw\<close> carries, as far as the program looks at it: \<open>sendCommand\<close> tests
  \<open>error && error.message\<close>.
  \<^item> \<open>Error m\<close> is \<open>new Error(m)\<close>; the message may be empty.
  \<^item> \<open>TypeError\<close> is raised by the runtime when a value that is not a function is
    called or a property of \<open>undefined\<close> is read; its message is never empty.
  \<^item> \<open>Thrown\<close> is any other thrown value: a falsy value, or one without a truthy
    \<open>message\<close> (a thrown string, for instance).
\<close>

datatype thrown = Error string | TypeError | Thrown

fun hasMessage :: "thrown \<Rightarrow> bool" where
  "hasMessage (Error m) = (m \<noteq> [])"
| "hasMessage TypeError = True"
| "hasMessage Thrown = False"

text \<open>
  The calls made on the terminal \<open>term\<close>, in order. \<open>TermError e stack\<close> is
  \<open>term.error(e)\<close> or, when \<open>stack\<close> holds, \<open>term.error(e, e.stack)\<close>.
\<close>

datatype termCall = Log string | Warn string | Magenta string | TermError thrown bool

text \<open>
  The functions registered as handlers. \<open>Print\<close>, \<open>DefineAlias\<close> and \<open>Help\<close> are the
  callbacks of the built-in commands \<open>print\<close>, \<open>command\<close> and \<open>help\<close>;
  \<open>Alias args\<close> is the closure that \<open>addCustomCommand\<close> registers, holding the
  expansion \<open>args\<close>. \<open>Leaf f\<close> is a handler registered by another module (the
  commands of \<open>MapData.initialize\<close>, for example): it writes to the terminal, and
  completes or throws. Such a handler is taken to return, and to leave the tree as it is.
\<close>

datatype handler =
    Print
  | DefineAlias
  | Alias "string list"
  | Help
  | Leaf "string list \<Rightarrow> termCall list \<times> thrown option"

subsection \<open>The class Command\<close>

text \<open>
  A command owns its children; \<open>children\<close> lists the own properties of the object
  \<open>this.children\<close> in the order in which JavaScript enumerates them (see
  \<open>insertOwn\<close> below). The field \<open>parent\<close> is used for \<open>fullname\<close> and
  for the test \<open>this.parent !== undefined\<close> only; the functions below take instead the
  full name of the parent chain as an argument \<open>ctx\<close>: \<open>None\<close> for the root, which
  has no parent, and \<open>Some (fullname)\<close> for any other command.
\<close>

datatype command =
  Command (name: string) (argDesc: "string option") (description: "string option")
    (handler: "handler option") (children: "(string \<times> command) list")

text \<open>
  \<open>this.children\<close> is created by the object literal \<open>{}\<close>, so its prototype is
  \<open>Object.prototype\<close>, and the property read \<open>this.children[key]\<close> finds the members
  inherited from it as well as the commands stored in the object. These are the names of
  the members of \<open>Object.prototype\<close>; none of their values is \<open>undefined\<close>, and none
  is a \<open>Command\<close>.
\<close>

definition objectPrototypeKeys :: "string list" where
  "objectPrototypeKeys =
     [''constructor'', ''__defineGetter__'', ''__defineSetter__'', ''hasOwnProperty'',
      ''__lookupGetter__'', ''__lookupSetter__'', ''isPrototypeOf'', ''propertyIsEnumerable'',
      ''toString'', ''valueOf'', ''__proto__'', ''toLocaleString'']"

datatype 'a property = Undefined | Inherited | Own 'a

fun isUndefined :: "'a property \<Rightarrow> bool" where
  "isUndefined Undefined = True"
| "isUndefined Inherited = False"
| "isUndefined (Own c) = False"

definition getChild :: "(string \<times> command) list \<Rightarrow> string \<Rightarrow> command property" where
  "getChild cs key =
     (case map_of cs key of
        Some c \<Rightarrow> Own c
      | None \<Rightarrow> if key \<in> set objectPrototypeKeys then Inherited else Undefined)"

text \<open>
  The own properties of a plain object are enumerated with the names that are array
  indices first, in ascending order, and then the other names in the order of their
  creation. An array index is the decimal text, without a leading zero, of a number below
  \<open>2\<^sup>3\<^sup>2 - 1\<close>. \<open>insertOwn\<close> creates a property whose name the object does not
  own yet.
\<close>

definition digits :: "(char \<times> int) list" where
  "digits = zip ''0123456789'' [0, 1, 2, 3, 4, 5, 6, 7, 8, 9]"

fun decimalValue :: "int \<Rightarrow> string \<Rightarrow> int option" where
  "decimalValue acc [] = Some acc"
| "decimalValue acc (c # cs) =
     (case map_of digits c of
        None \<Rightarrow> None
      | Some d \<Rightarrow> decimalValue (10 * acc + d) cs)"

definition arrayIndex :: "string \<Rightarrow> int option" where
  "arrayIndex key =
     (if key = [] then None
      else if hd key = CHR ''0'' \<and> length key > 1 then None
      else (case decimalValue 0 key of
              None \<Rightarrow> None
            | Some i \<Rightarrow> if i < 4294967295 then Some i else None))"

fun insertOwn :: "(string \<times> 'a) list \<Rightarrow> string \<Rightarrow> 'a \<Rightarrow> (string \<times> 'a) list" where
  "insertOwn [] key v = [(key, v)]"
| "insertOwn (kv # rest) key v =
     (case arrayIndex key of
        None \<Rightarrow> kv # insertOwn rest key v
      | Some i \<Rightarrow>
          (case arrayIndex (fst kv) of
             None \<Rightarrow> (key, v) # kv # rest
           | Some j \<Rightarrow> if i < j then (key, v) # kv # rest else kv # insertOwn rest key v))"

text \<open>The getter \<open>fullname\<close> of a command whose parent chain is \<open>ctx\<close>.\<close>

definition fullname :: "string option \<Rightarrow> command \<Rightarrow> string" where
  "fullname ctx this = (case ctx of None \<Rightarrow> name this | Some fn \<Rightarrow> fn)"

text \<open>The \<open>ctx\<close> of a child named \<open>n\<close> of a command whose own \<open>ctx\<close> is given.\<close>

definition childCtx :: "string option \<Rightarrow> string \<Rightarrow> string option" where
  "childCtx ctx n = Some (case ctx of None \<Rightarrow> n | Some fn \<Rightarrow> fn @ '' '' @ n)"

text \<open>
  \<open>addCommand\<close> returns the new child; the model returns it together with the
  updated \<open>this\<close>. An inherited name can never be stored: the test refuses it first.
\<close>

definition addCommand ::
  "string option \<Rightarrow> command \<Rightarrow> string \<Rightarrow> string option \<Rightarrow> string option \<Rightarrow> handler option
     \<Rightarrow> thrown + command \<times> command" where
  "addCommand ctx this n ad de h =
     (if \<not> isUndefined (getChild (children this) n)
      then Inl (Error (''Multiple commands: '' @ fullname ctx this @ ''#'' @ n))
      else (let child = Command n ad de h []
            in Inr (child, Command (name this) (argDesc this) (description this) (handler this)
                             (insertOwn (children this) n child))))"

text \<open>\<open>delete\<close> on a name that is not an own property changes nothing.\<close>

definition removeCommand :: "command \<Rightarrow> string \<Rightarrow> command" where
  "removeCommand this n =
     (if \<not> isUndefined (getChild (children this) n)
      then Command (name this) (argDesc this) (description this) (handler this)
             (filter (\<lambda>kc. fst kc \<noteq> n) (children this))
      else this)"

text \<open>
  \<open>findCommand\<close>. Where \<open>child\<close> is an inherited member, \<open>child.findCommand\<close> is
  \<open>undefined\<close> and the call raises a \<open>TypeError\<close>.
\<close>

fun findCommand :: "command \<Rightarrow> string list \<Rightarrow> thrown + command" where
  "findCommand this [] = Inr this"
| "findCommand this (t # ts) =
     (case getChild (children this) t of
        Undefined \<Rightarrow> Inr this
      | Inherited \<Rightarrow> Inl TypeError
      | Own child \<Rightarrow> findCommand child ts)"

lemma map_of_size:
  "map_of cs key = Some c \<Longrightarrow> size c < Suc (size_list (size_prod (\<lambda>_. 0) size) cs)"
  by (induction cs) (auto split: if_splits)

lemma getChild_size:
  "getChild (children this) key = Own c \<Longrightarrow> size c < size this"
  by (cases this) (auto simp: getChild_def split: option.splits if_splits dest: map_of_size)

text \<open>
  \<open>handle\<close> walks down without any effect and then awaits the handler of the command
  it stops at. \<open>handleWalk\<close> is the walk: it returns the exception that \<open>handle\<close>
  throws, or the handler that \<open>handle\<close> calls and the arguments it passes. \<open>args[0]\<close>
  of an empty array is \<open>undefined\<close>: the key read is then \<open>undefined\<close>, and
  \<open>args.slice(1)\<close> is empty again.
\<close>

function handleWalk ::
  "string option \<Rightarrow> command \<Rightarrow> string list \<Rightarrow> thrown + handler \<times> string list" where
  "handleWalk ctx this args =
     (case getChild (children this) (firstArg args) of
        Own fc \<Rightarrow> handleWalk (childCtx ctx (name fc)) fc (drop 1 args)
      | Inherited \<Rightarrow> Inl TypeError
      | Undefined \<Rightarrow>
          (case handler this of
             None \<Rightarrow>
               Inl (Error (''No command '' @ (case ctx of None \<Rightarrow> [] | Some fn \<Rightarrow> fn @ '' '')
                            @ firstArg args))
           | Some h \<Rightarrow> Inr (h, args)))"
  by pat_completeness auto
termination
  by (relation "measure (\<lambda>(ctx, this, args). size this)") (auto dest: getChild_size)

declare handleWalk.simps [simp del]

subsection \<open>The namespace commands\<close>

text \<open>
  The state of the module: the tree under \<open>rootCommand\<close>, the object
  \<open>customCommands\<close>, the mapping last written to the file \<open>commandfile\<close>, the
  setting \<open>cfg.display.print_stacktrace()\<close>, and the terminal: whether its input is
  enabled, and the calls made on it so far. Writing the file and calling the terminal
  are taken to succeed.
\<close>

record state =
  rootCommand :: command
  customCommands :: "(string \<times> string) list"
  commandfile :: "(string \<times> string) list"
  printStacktrace :: bool
  termEnabled :: bool
  termOut :: "termCall list"

text \<open>
  The assignment \<open>customCommands[name] = value\<close> on a plain object: an own property
  keeps its place, a new one is created, and a string assigned to \<open>__proto__\<close> is
  dropped by the setter of \<open>Object.prototype\<close>.
\<close>

definition setProperty :: "(string \<times> string) list \<Rightarrow> string \<Rightarrow> string \<Rightarrow> (string \<times> string) list" where
  "setProperty obj key v =
     (if key = ''__proto__'' then obj
      else if key \<in> fst ` set obj then map (\<lambda>kv. if fst kv = key then (key, v) else kv) obj
      else insertOwn obj key v)"

text \<open>
  \<open>addCustomCommand\<close>. The exception of \<open>rootCommand.addCommand\<close> leaves the function
  after the file has been written and the old command removed.
\<close>

definition addCustomCommand :: "string \<Rightarrow> string list \<Rightarrow> state \<Rightarrow> thrown option \<times> state" where
  "addCustomCommand n args st =
     (let custom = setProperty (customCommands st) n (jsJoin '' '' args);
          removed = removeCommand (rootCommand st) n;
          st' = st\<lparr>customCommands := custom, commandfile := custom\<rparr>
      in case addCommand None removed n (Some []) (Some []) (Some (Alias args)) of
           Inl e \<Rightarrow> (Some e, st'\<lparr>rootCommand := removed\<rparr>)
         | Inr (child, root') \<Rightarrow> (None, st'\<lparr>rootCommand := root'\<rparr>))"

text \<open>
  The callback of \<open>help\<close>. Its loop follows \<open>args\<close> from \<open>rootCommand\<close>; an inherited
  member taken for a command makes the next step, or \<open>printCommand\<close>, raise a
  \<open>TypeError\<close> before anything is printed.
\<close>

datatype helpTarget = NoChild string | NotACommand | Target "string option" command

fun helpWalk :: "string option \<Rightarrow> command \<Rightarrow> string list \<Rightarrow> helpTarget" where
  "helpWalk ctx cur [] = Target ctx cur"
| "helpWalk ctx cur (arg # rest) =
     (case getChild (children cur) arg of
        Undefined \<Rightarrow> NoChild (fullname ctx cur @ '' has no child command '' @ arg)
      | Inherited \<Rightarrow> NotACommand
      | Own c \<Rightarrow> helpWalk (childCtx ctx (name c)) c rest)"

text \<open>
  \<open>printCommand\<close> with its counter \<open>spaces\<close>: the value at the call is an argument,
  and each child is printed with the counter one higher than it is after the branch
  taken for \<open>curPrint\<close>. \<open>hasParent\<close> is \<open>curPrint.parent !== undefined\<close>. The list
  \<open>children\<close> is in the order of \<open>Object.values\<close>.
\<close>

fun printCommand :: "bool \<Rightarrow> int \<Rightarrow> command \<Rightarrow> termCall list"
  and printChildren :: "int \<Rightarrow> (string \<times> command) list \<Rightarrow> termCall list" where
  "printCommand hasParent spaces (Command n ad de h cs) =
     (if \<not> Option.is_none h
      then Magenta (replicate (nat (spaces * 2)) CHR '' '' @ n
                    @ (case ad of None \<Rightarrow> [] | Some a \<Rightarrow> if length a > 0 then '' ('' @ a @ '')'' else [])
                    @ (case de of None \<Rightarrow> [] | Some d \<Rightarrow> if length d > 0 then '' - '' @ d else []))
             # printChildren (spaces + 1) cs
      else if hasParent
      then Magenta (replicate (nat (spaces * 2)) CHR '' '' @ n) # printChildren (spaces + 1) cs
      else printChildren (spaces - 1 + 1) cs)"
| "printChildren spaces [] = []"
| "printChildren spaces (kc # rest) = printCommand True spaces (snd kc) @ printChildren spaces rest"

definition helpCallback :: "string list \<Rightarrow> state \<Rightarrow> thrown option \<times> state" where
  "helpCallback args st =
     (case helpWalk None (rootCommand st) args of
        NoChild w \<Rightarrow> (None, st\<lparr>termOut := termOut st @ [Warn w]\<rparr>)
      | NotACommand \<Rightarrow> (Some TypeError, st)
      | Target ctx cur \<Rightarrow> (None, st\<lparr>termOut := termOut st @ printCommand (ctx \<noteq> None) 0 cur\<rparr>))"

text \<open>
  Calling a handler with \<open>args\<close>. The result is \<open>None\<close> when the call does not
  return, and otherwise the exception thrown, if any, with the state left behind.
  \<open>reenter\<close> is \<open>sendCommand\<close>, which the closure of an alias calls with the expansion
  and the arguments joined into one line.
\<close>

definition invoke ::
  "(string \<Rightarrow> state \<Rightarrow> (thrown option \<times> state) option) \<Rightarrow> handler \<Rightarrow> string list \<Rightarrow> state
     \<Rightarrow> (thrown option \<times> state) option" where
  "invoke reenter h args st =
     (case h of
        Print \<Rightarrow> Some (None, st\<lparr>termOut := termOut st @ [Log (jsJoin '' '' args)]\<rparr>)
      | DefineAlias \<Rightarrow> Some (addCustomCommand (firstArg args) (drop 1 args) st)
      | Alias expansion \<Rightarrow> reenter (jsJoin '' '' (expansion @ args)) st
      | Help \<Rightarrow> Some (helpCallback args st)
      | Leaf f \<Rightarrow> (case f args of (outs, r) \<Rightarrow> Some (r, st\<lparr>termOut := termOut st @ outs\<rparr>)))"

text \<open>\<open>handle\<close>: the walk, then the handler.\<close>

definition handle ::
  "(string \<Rightarrow> state \<Rightarrow> (thrown option \<times> state) option) \<Rightarrow> string option \<Rightarrow> command \<Rightarrow> string list
     \<Rightarrow> state \<Rightarrow> (thrown option \<times> state) option" where
  "handle reenter ctx this args st =
     (case handleWalk ctx this args of
        Inl e \<Rightarrow> Some (Some e, st)
      | Inr (h, args') \<Rightarrow> invoke reenter h args' st)"

text \<open>The statements of an input line: the constant \<open>coms\<close> of \<open>sendCommand\<close>.\<close>

definition coms :: "string \<Rightarrow> string list" where
  "coms input = (if prefix ''command'' input then [input] else jsSplit ''&&'' input)"

text \<open>
  The body of \<open>catch\<close>: the error is printed when \<open>error && error.message\<close> holds.
\<close>

definition catch :: "thrown \<Rightarrow> state \<Rightarrow> state" where
  "catch error st =
     (if hasMessage error
      then st\<lparr>termOut := termOut st @ [TermError error (printStacktrace st)]\<rparr>
      else st)"

text \<open>The loop \<open>for (const com of coms)\<close> with its \<open>try\<close> and \<open>catch\<close>.\<close>

fun forComs ::
  "(string \<Rightarrow> state \<Rightarrow> (thrown option \<times> state) option) \<Rightarrow> string list \<Rightarrow> state \<Rightarrow> state option" where
  "forComs reenter [] st = Some st"
| "forComs reenter (com # rest) st =
     (case handle reenter None (rootCommand st) (splitArgs com) st of
        None \<Rightarrow> None
      | Some (None, st') \<Rightarrow> forComs reenter rest st'
      | Some (Some error, st') \<Rightarrow> forComs reenter rest (catch error st'))"

text \<open>
  \<open>sendCommand\<close>. An exception of the first \<open>findCommand\<close> leaves the function before
  the terminal is touched. \<open>findCommand\<close> has no result \<open>undefined\<close>, so the
  \<open>return\<close> that follows it has no case here.
\<close>

definition sendCommandBody ::
  "(string \<Rightarrow> state \<Rightarrow> (thrown option \<times> state) option) \<Rightarrow> string \<Rightarrow> state
     \<Rightarrow> (thrown option \<times> state) option" where
  "sendCommandBody reenter input st =
     (case findCommand (rootCommand st) (filter (\<lambda>x. length x > 0) (jsSplit '' '' input)) of
        Inl e \<Rightarrow> Some (Some e, st)
      | Inr cmd \<Rightarrow>
          (case forComs reenter (coms input) (st\<lparr>termEnabled := False\<rparr>) of
             None \<Rightarrow> None
           | Some st' \<Rightarrow> Some (None, st'\<lparr>termEnabled := True\<rparr>)))"

text \<open>
  An alias may expand to itself, and the calls of \<open>sendCommand\<close> made by aliases then
  nest without end (in the code, until the stack of the runtime is exhausted). The first
  argument bounds how deeply these calls may nest; the result is \<open>None\<close> when an alias
  is called at that bound, and the model then says nothing about what the code does.
\<close>

primrec sendCommand :: "nat \<Rightarrow> string \<Rightarrow> state \<Rightarrow> (thrown option \<times> state) option" where
  "sendCommand 0 = sendCommandBody (\<lambda>input st. None)"
| "sendCommand (Suc fuel) = sendCommandBody (sendCommand fuel)"

text \<open>
  The tree after the module has been loaded with no file \<open>commands.yaml\<close>: the root
  \<open>new Command('', '', '')\<close> with the commands \<open>print\<close>, \<open>command\<close> and \<open>help\<close>.
\<close>

definition emptyRoot :: command where
  "emptyRoot = Command [] (Some []) (Some []) None []"

definition initialRoot :: command where
  "initialRoot =
     Command [] (Some []) (Some []) None
       [(''print'', Command ''print'' (Some ''messages'')
                      (Some ''Prints out messages to the screen'') (Some Print) []),
        (''command'', Command ''command'' (Some ''alias command'')
                      (Some ''Creates a command alias'') (Some DefineAlias) []),
        (''help'', Command ''help'' (Some ''command, [args]?'')
                      (Some ''Prints this help message'') (Some Help) [])]"

definition initialState :: state where
  "initialState =
     \<lparr>rootCommand = initialRoot, customCommands = [], commandfile = [],
      printStacktrace = False, termEnabled = True, termOut = []\<rparr>"

text \<open>
  States for the examples. \<open>boomState\<close> has a command \<open>boom\<close> registered by
  another module whose handler does \<open>throw new Error()\<close>. \<open>moveState\<close> has a command
  \<open>move\<close> whose handler logs its arguments, and \<open>goState\<close> is \<open>moveState\<close> after
  \<open>addCustomCommand('go', ['move', 'north'])\<close>. \<open>goOnlyState\<close> is the state as loaded
  after the same call: it has the alias \<open>go\<close> and no command \<open>move\<close>.
\<close>

definition boomState :: state where
  "boomState =
     initialState\<lparr>rootCommand :=
       Command [] (Some []) (Some []) None
         (children initialRoot
            @ [(''boom'', Command ''boom'' None None (Some (Leaf (\<lambda>args. ([], Some (Error []))))) [])])\<rparr>"

definition moveState :: state where
  "moveState =
     initialState\<lparr>rootCommand :=
       Command [] (Some []) (Some []) None
         (children initialRoot
            @ [(''move'', Command ''move'' None None
                  (Some (Leaf (\<lambda>args. ([Log (jsJoin '' '' args)], None)))) [])])\<rparr>"

definition goState :: state where
  "goState = snd (addCustomCommand ''go'' [''move'', ''north''] moveState)"

definition goOnlyState :: state where
  "goOnlyState = snd (addCustomCommand ''go'' [''move'', ''north''] initialState)"

text \<open>
  A token that the tokenizer gives back unchanged when it stands between spaces: it is
  not empty and holds neither a space nor a double quote.
\<close>

definition plainToken :: "string \<Rightarrow> bool" where
  "plainToken t = (t \<noteq> [] \<and> CHR '' '' \<notin> set t \<and> dquote \<notin> set t)"

subsection \<open>Properties of the tokenizer\<close>

lemma splitArgsLoop_append:
  "splitArgsLoop args inString escaped cur (xs @ ys) =
     (case splitArgsLoop args inString escaped cur xs of
        (args', inString', escaped', cur') \<Rightarrow> splitArgsLoop args' inString' escaped' cur' ys)"
  by (induction xs arbitrary: args inString escaped cur) simp_all

text \<open>Once set, the flag \<open>escaped\<close> stays set until the end of the text.\<close>

lemma splitArgsLoop_escaped_stays:
  "fst (snd (snd (splitArgsLoop args inString True cur xs)))"
  by (induction xs arbitrary: args inString cur) simp_all

text \<open>
  Claim C1. The specification says that a backslash inside a quoted span escapes the
  following character only, so that the text \<open>a "b\"c" d\<close> has the three tokens
  \<open>a\<close>, \<open>b"c\<close> and \<open>d\<close>. In the code the flag set by the backslash is never
  cleared: the closing quote after \<open>c\<close> is taken as a character of the token, the
  quoted span never ends, and the result has two tokens, \<open>a\<close> and \<open>b"c" d\<close>.
\<close>

theorem splitArgs_escaped_quote_never_closes:
  "splitArgs (''a '' @ [dquote] @ ''b'' @ [backslash, dquote] @ ''c'' @ [dquote] @ '' d'')
     = [''a'', ''b'' @ [dquote] @ ''c'' @ [dquote] @ '' d'']"
  by (simp add: splitArgs_def dquote_def backslash_def)

lemma jsJoin_Cons: "rest \<noteq> [] \<Longrightarrow> jsJoin sep (x # rest) = x @ sep @ jsJoin sep rest"
  by (cases rest) simp_all

lemma splitArgsLoop_plain:
  "CHR '' '' \<notin> set t \<Longrightarrow> dquote \<notin> set t \<Longrightarrow>
     splitArgsLoop args False False cur t = (args, False, False, cur @ t)"
  by (induction t arbitrary: cur) auto

lemma splitArgsLoop_join:
  "list_all plainToken ts \<Longrightarrow> ts \<noteq> [] \<Longrightarrow>
     splitArgsLoop args False False [] (jsJoin '' '' ts) = (args @ butlast ts, False, False, last ts)"
proof (induction ts arbitrary: args)
  case Nil
  then show ?case by simp
next
  case (Cons t ts)
  show ?case
  proof (cases ts)
    case Nil
    with Cons.prems show ?thesis
      by (simp add: plainToken_def splitArgsLoop_plain)
  next
    case (Cons u us)
    with Cons.prems Cons.IH [of "args @ [t]"] show ?thesis
      by (simp add: plainToken_def splitArgsLoop_append splitArgsLoop_plain dquote_def)
  qed
qed

text \<open>Plain tokens joined by single spaces are tokenized into themselves.\<close>

lemma splitArgs_join:
  assumes "list_all plainToken ts"
  shows "splitArgs (jsJoin '' '' ts) = ts"
proof (cases ts)
  case Nil
  then show ?thesis by (simp add: splitArgs_def)
next
  case (Cons u us)
  from assms have ne: "filter (\<lambda>x. 0 < length x) ts = ts"
    by (induction ts) (auto simp: plainToken_def)
  from assms Cons have "last ts \<noteq> []"
    by (metis last_in_set list.distinct(1) list_all_iff plainToken_def)
  moreover from Cons have "butlast ts @ [last ts] = ts"
    by simp
  ultimately show ?thesis
    using assms Cons ne splitArgsLoop_join [of ts "[]"]
    by (simp add: splitArgs_def del: append_butlast_last_id)
qed

subsection \<open>Properties of split and join\<close>

lemma jsSplit_not_Nil [simp]: "jsSplit sep s \<noteq> []"
  by (induction sep s rule: jsSplit.induct) (auto split: list.splits)

lemma jsJoin_Cons_Cons: "jsJoin sep ((c # p) # ps) = c # jsJoin sep (p # ps)"
  by (cases ps) simp_all

text \<open>Joining the pieces with the separator gives the text back.\<close>

lemma jsJoin_jsSplit: "jsJoin sep (jsSplit sep s) = s"
proof (induction sep s rule: jsSplit.induct)
  case (1 sep)
  show ?case by simp
next
  case (2 sep c cs)
  show ?case
  proof (cases "sep \<noteq> [] \<and> prefix sep (c # cs)")
    case True
    then have split: "jsSplit sep (c # cs) = [] # jsSplit sep (drop (length sep) (c # cs))"
      by simp
    from True have whole: "sep @ drop (length sep) (c # cs) = c # cs"
      by (metis append_eq_conv_conj prefix_def)
    from True 2 have "jsJoin sep (jsSplit sep (drop (length sep) (c # cs))) = drop (length sep) (c # cs)"
      by simp
    with whole show ?thesis
      unfolding split by (simp add: jsJoin_Cons)
  next
    case False
    with 2 have ih: "jsJoin sep (jsSplit sep cs) = cs"
      by simp
    obtain p ps where pps: "jsSplit sep cs = p # ps"
      by (cases "jsSplit sep cs") simp_all
    from False have split: "jsSplit sep (c # cs) = (c # p) # ps"
      by (auto simp: pps)
    from ih show ?thesis
      unfolding split by (simp add: jsJoin_Cons_Cons pps)
  qed
qed

lemma jsSplit_hd_prefix: "prefix (hd (jsSplit sep s)) s"
  by (induction sep s rule: jsSplit.induct) (auto split: list.splits)

text \<open>No piece holds the separator.\<close>

lemma jsSplit_pieces_free:
  "sep \<noteq> [] \<Longrightarrow> p \<in> set (jsSplit sep s) \<Longrightarrow> \<not> sublist sep p"
proof (induction sep s arbitrary: p rule: jsSplit.induct)
  case (1 sep)
  then show ?case by simp
next
  case (2 sep c cs)
  show ?case
  proof (cases "prefix sep (c # cs)")
    case True
    with "2.prems" "2.IH"(1) [of p] show ?thesis by auto
  next
    case False
    obtain q qs where qqs: "jsSplit sep cs = q # qs"
      by (cases "jsSplit sep cs") simp_all
    have pq: "prefix q cs"
      using jsSplit_hd_prefix [of sep cs] qqs by simp
    from "2.prems" False qqs have "p = c # q \<or> p \<in> set qs"
      by simp
    then show ?thesis
    proof
      assume p: "p = c # q"
      have "\<not> sublist sep q"
        using "2.IH"(2) [of q] "2.prems" False qqs by simp
      moreover have "\<not> prefix sep (c # q)"
      proof
        assume "prefix sep (c # q)"
        moreover have "prefix (c # q) (c # cs)" using pq by simp
        ultimately have "prefix sep (c # cs)" by (rule prefix_order.trans)
        with False show False by simp
      qed
      ultimately show ?thesis
        using p by (simp add: sublist_Cons_right)
    next
      assume "p \<in> set qs"
      then show ?thesis
        using "2.IH"(2) [of p] "2.prems" False qqs by simp
    qed
  qed
qed

lemma jsSplit_no_separator: "\<not> sublist sep s \<Longrightarrow> jsSplit sep s = [s]"
proof (induction sep s rule: jsSplit.induct)
  case (1 sep)
  show ?case by simp
next
  case (2 sep c cs)
  from "2.prems" have np: "\<not> prefix sep (c # cs)" and ns: "\<not> sublist sep cs"
    by (auto simp: sublist_Cons_right)
  with "2.IH"(2) show ?case by simp
qed

lemma jsSplit_separator_splits:
  "sep \<noteq> [] \<Longrightarrow> sublist sep s \<Longrightarrow> 2 \<le> length (jsSplit sep s)"
proof (induction sep s rule: jsSplit.induct)
  case (1 sep)
  then show ?case by simp
next
  case (2 sep c cs)
  show ?case
  proof (cases "prefix sep (c # cs)")
    case True
    have "1 \<le> length (jsSplit sep (drop (length sep) (c # cs)))"
      by (cases "jsSplit sep (drop (length sep) (c # cs))") simp_all
    with True "2.prems" show ?thesis by simp
  next
    case False
    with "2.prems" have "sublist sep cs" by (simp add: sublist_Cons_right)
    with "2.IH"(2) "2.prems" False have "2 \<le> length (jsSplit sep cs)" by simp
    with False show ?thesis by (auto split: list.splits)
  qed
qed

lemma jsSplit_space_plain:
  "CHR '' '' \<notin> set t \<Longrightarrow> jsSplit '' '' (t @ CHR '' '' # rest) = t # jsSplit '' '' rest"
  by (induction t) auto

lemma jsSplit_space_plain_end:
  "CHR '' '' \<notin> set t \<Longrightarrow> jsSplit '' '' t = [t]"
  by (induction t) auto

text \<open>The words that the first line of \<open>sendCommand\<close> passes to \<open>findCommand\<close>.\<close>

lemma words_join:
  "list_all plainToken ts \<Longrightarrow> filter (\<lambda>x. 0 < length x) (jsSplit '' '' (jsJoin '' '' ts)) = ts"
proof (induction ts)
  case Nil
  show ?case by simp
next
  case (Cons t ts)
  show ?case
  proof (cases ts)
    case Nil
    with Cons.prems show ?thesis
      by (simp add: plainToken_def jsSplit_space_plain_end)
  next
    case (Cons u us)
    with Cons.prems Cons.IH show ?thesis
      by (simp add: plainToken_def jsSplit_space_plain)
  qed
qed

subsection \<open>Properties of the command tree\<close>

lemmas evals = sendCommandBody_def coms_def splitArgs_def handle_def handleWalk.simps getChild_def
  firstArg_def objectPrototypeKeys_def catch_def invoke_def initialState_def initialRoot_def
  dquote_def backslash_def childCtx_def fullname_def boomState_def moveState_def goState_def
  goOnlyState_def
  addCustomCommand_def addCommand_def removeCommand_def setProperty_def plainToken_def
  arrayIndex_def digits_def
  emptyRoot_def Let_def

text \<open>
  \<open>findCommand\<close> returns a command whenever no token is the name of a member of
  \<open>Object.prototype\<close>.
\<close>

lemma findCommand_own_names:
  "set ts \<inter> set objectPrototypeKeys = {} \<Longrightarrow> \<exists>c. findCommand this ts = Inr c"
  by (induction this ts rule: findCommand.induct)
     (auto simp: getChild_def split: property.splits option.splits if_splits)

text \<open>Every exception of the walk of \<open>handle\<close> carries a message.\<close>

lemma handleWalk_has_message: "handleWalk ctx this args = Inl e \<Longrightarrow> hasMessage e"
proof (induction ctx this args rule: handleWalk.induct)
  case (1 ctx this args)
  then show ?case
    by (subst (asm) (2) handleWalk.simps) (auto split: property.splits option.splits)
qed

lemma forComs_append:
  "forComs reenter (xs @ ys) st =
     (case forComs reenter xs st of None \<Rightarrow> None | Some st1 \<Rightarrow> forComs reenter ys st1)"
  by (induction xs arbitrary: st) (auto split: option.splits)

lemma sendCommandBody_result:
  "sendCommandBody reenter input st = Some (r, st') \<Longrightarrow>
     findCommand (rootCommand st) (filter (\<lambda>x. length x > 0) (jsSplit '' '' input)) = Inr c \<Longrightarrow>
     r = None \<and> termEnabled st'"
  by (auto simp: sendCommandBody_def split: option.splits)

lemma sendCommandBody_flag:
  "findCommand (rootCommand st) (filter (\<lambda>x. length x > 0) (jsSplit '' '' input)) = Inr c \<Longrightarrow>
     sendCommandBody reenter input (st\<lparr>termEnabled := b\<rparr>) = sendCommandBody reenter input st"
  by (simp add: sendCommandBody_def)

lemma map_of_filter_key: "map_of (filter (\<lambda>kc. fst kc \<noteq> n) cs) n = None"
  by (induction cs) auto

lemma map_of_insertOwn: "map_of cs n = None \<Longrightarrow> map_of (insertOwn cs n c) n = Some c"
  by (induction cs) (auto split: option.splits)

lemma set_insertOwn: "set (insertOwn cs n c) = insert (n, c) (set cs)"
  by (induction cs) (auto split: option.splits)

lemma length_insertOwn: "length (insertOwn cs n c) = Suc (length cs)"
  by (induction cs) (auto split: option.splits)

text \<open>A name that is not an array index is enumerated last.\<close>

lemma insertOwn_last: "arrayIndex n = None \<Longrightarrow> insertOwn cs n c = cs @ [(n, c)]"
  by (induction cs) auto

lemma getChild_inserted:
  "isUndefined (getChild cs n) \<Longrightarrow> getChild (insertOwn cs n c) n = Own c"
  by (auto simp: getChild_def map_of_insertOwn split: option.splits if_splits)

lemma isUndefined_not_inherited:
  "isUndefined (getChild cs n) \<Longrightarrow> n \<notin> set objectPrototypeKeys"
  by (auto simp: getChild_def split: option.splits if_splits)

lemma addCustomCommand_defines:
  assumes "addCustomCommand n expansion st = (None, st')"
  shows "getChild (children (rootCommand st')) n
           = Own (Command n (Some []) (Some []) (Some (Alias expansion)) [])"
  using assms
  by (auto simp: addCustomCommand_def addCommand_def Let_def getChild_inserted
           split: if_splits)

lemma handleWalk_alias:
  assumes "getChild (children this) n = Own (Command n ad de (Some (Alias expansion)) [])"
      and "firstArg runArgs \<notin> set objectPrototypeKeys"
  shows "handleWalk ctx this (n # runArgs) = Inr (Alias expansion, runArgs)"
proof -
  have stop: "handleWalk ctx' (Command n ad de (Some (Alias expansion)) []) runArgs
                = Inr (Alias expansion, runArgs)" for ctx'
    using assms(2) by (subst handleWalk.simps) (simp add: getChild_def)
  have "firstArg (n # runArgs) = n"
    by (simp add: firstArg_def)
  with assms(1) show ?thesis
    by (subst handleWalk.simps) (simp add: stop)
qed

lemma findCommand_alias:
  assumes "getChild (children this) n = Own (Command n ad de h [])"
      and "firstArg runArgs \<notin> set objectPrototypeKeys"
  shows "findCommand this (n # runArgs) = Inr (Command n ad de h [])"
  using assms by (cases runArgs) (simp_all add: getChild_def firstArg_def)

lemma sendCommand_flag:
  "findCommand (rootCommand st) (filter (\<lambda>x. length x > 0) (jsSplit '' '' input)) = Inr c \<Longrightarrow>
     sendCommand fuel input (st\<lparr>termEnabled := b\<rparr>) = sendCommand fuel input st"
  by (cases fuel) (simp_all add: sendCommandBody_flag)

lemma sendCommand_result:
  "sendCommand fuel input st = Some (r, st') \<Longrightarrow>
     findCommand (rootCommand st) (filter (\<lambda>x. length x > 0) (jsSplit '' '' input)) = Inr c \<Longrightarrow>
     r = None \<and> termEnabled st'"
  by (cases fuel) (auto dest: sendCommandBody_result)

lemma termEnabled_already: "termEnabled s \<Longrightarrow> s\<lparr>termEnabled := True\<rparr> = s"
  by (cases s) simp

text \<open>
  When the calls of \<open>sendCommand\<close> made by aliases return, every handler returns, and so
  do \<open>handle\<close>, the loop and \<open>sendCommand\<close> itself.
\<close>

lemma invoke_returns:
  "(\<And>input s. reenter input s \<noteq> None) \<Longrightarrow> invoke reenter h args st \<noteq> None"
  by (cases h) (auto simp: invoke_def split: prod.splits)

lemma handle_returns:
  "(\<And>input s. reenter input s \<noteq> None) \<Longrightarrow> handle reenter ctx this args st \<noteq> None"
proof (cases "handleWalk ctx this args")
  case (Inl e)
  then show ?thesis by (simp add: handle_def)
next
  case (Inr ha)
  assume "\<And>input s. reenter input s \<noteq> None"
  then have "invoke reenter (fst ha) (snd ha) st \<noteq> None"
    by (rule invoke_returns)
  with Inr show ?thesis by (cases ha) (simp add: handle_def)
qed

lemma forComs_returns:
  "(\<And>input s. reenter input s \<noteq> None) \<Longrightarrow> forComs reenter cs st \<noteq> None"
proof (induction cs arbitrary: st)
  case Nil
  show ?case by simp
next
  case (Cons com cs)
  from Cons.prems have "handle reenter None (rootCommand st) (splitArgs com) st \<noteq> None"
    by (rule handle_returns)
  then obtain r st' where "handle reenter None (rootCommand st) (splitArgs com) st = Some (r, st')"
    by auto
  with Cons.IH [OF Cons.prems] show ?case
    by (cases r) simp_all
qed

lemma sendCommandBody_returns:
  "(\<And>input s. reenter input s \<noteq> None) \<Longrightarrow> sendCommandBody reenter line st \<noteq> None"
  using forComs_returns [of reenter "coms line" "st\<lparr>termEnabled := False\<rparr>"]
  by (auto simp: sendCommandBody_def split: sum.splits option.splits)

text \<open>\<open>handle([])\<close> on a root without handler and without a command named \<open>undefined\<close>.\<close>

lemma handleWalk_empty_at_root:
  "handler this = None \<Longrightarrow> map_of (children this) ''undefined'' = None \<Longrightarrow>
     handleWalk None this [] = Inl (Error ''No command undefined'')"
  by (subst handleWalk.simps) (simp add: getChild_def firstArg_def objectPrototypeKeys_def)

text \<open>
  Claim C2. The specification makes a blank input line a no-op. In the code
  \<open>rootCommand.handle([])\<close> reads the child named \<open>undefined\<close>, finds none, finds no
  handler on the root and throws \<open>No command undefined\<close>, which \<open>sendCommand\<close> prints
  as an error. The same happens for a line of spaces.
\<close>

theorem blank_line_reports_error:
  "sendCommand fuel [] initialState
     = Some (None, initialState\<lparr>termOut := [TermError (Error ''No command undefined'') False]\<rparr>)
   \<and> sendCommand fuel ''   '' initialState
     = Some (None, initialState\<lparr>termOut := [TermError (Error ''No command undefined'') False]\<rparr>)"
  by (cases fuel) (simp_all add: evals)

text \<open>
  Claim C3, as the specification has it: every failure of a statement is reported to
  the output sink. The \<open>catch\<close> of \<open>sendCommand\<close> prints only when
  \<open>error && error.message\<close> holds: the handler of \<open>boom\<close> throws an \<open>Error\<close> with
  an empty message, and the line \<open>boom\<close> leaves the terminal without any output.
\<close>

theorem failure_without_message_is_silent:
  "handle (\<lambda>input st. None) None (rootCommand boomState) (splitArgs ''boom'') boomState
     = Some (Some (Error []), boomState)
   \<and> sendCommand 0 ''boom'' boomState = Some (None, boomState)"
  by (simp add: evals)

text \<open>
  Claim C3, amended. When the dispatch of a statement or its handler throws \<open>e\<close>,
  leaving the state \<open>st1\<close>, the loop catches \<open>e\<close> and goes on with the remaining
  statements; \<open>e\<close> is reported to the terminal when it carries a non-empty message, and
  is dropped when it does not. An exception of the walk of \<open>handle\<close> (an unknown command,
  or a name that is not a command) always carries a message. A call of \<open>sendCommand\<close>
  that has run its loop returns without an exception and with the input enabled, and
  \<open>sendCommand\<close> does return when the calls of \<open>sendCommand\<close> made by aliases do.
\<close>

theorem failure_caught_and_reported_with_message:
  assumes "handle reenter None (rootCommand st) (splitArgs com) st = Some (Some e, st1)"
  shows "forComs reenter (com # rest) st
           = forComs reenter rest
               (if hasMessage e
                then st1\<lparr>termOut := termOut st1 @ [TermError e (printStacktrace st1)]\<rparr>
                else st1)
         \<and> (handleWalk None (rootCommand st) (splitArgs com) = Inl e \<longrightarrow> hasMessage e)
         \<and> (\<forall>input c r st'.
               findCommand (rootCommand st) (filter (\<lambda>x. length x > 0) (jsSplit '' '' input)) = Inr c
               \<longrightarrow> sendCommandBody reenter input st = Some (r, st')
               \<longrightarrow> r = None \<and> termEnabled st')
         \<and> ((\<forall>input s. reenter input s \<noteq> None)
               \<longrightarrow> (\<forall>input. sendCommandBody reenter input st \<noteq> None))"
  using assms
  by (auto simp: catch_def sendCommandBody_returns
           dest: handleWalk_has_message sendCommandBody_result)

theorem failure_caught_and_reported_with_message_witness:
  "handle (\<lambda>input st. Some (None, st)) None (rootCommand initialState) (splitArgs ''bad'') initialState
     = Some (Some (Error ''No command bad''), initialState)
   \<and> forComs (\<lambda>input st. Some (None, st)) [''bad'', ''print hi''] initialState
     = Some (initialState\<lparr>termOut := [TermError (Error ''No command bad'') False, Log ''hi'']\<rparr>)
   \<and> hasMessage (Error ''No command bad'')
   \<and> sendCommandBody (\<lambda>input st. Some (None, st)) ''bad && print hi'' initialState
     = Some (None, initialState\<lparr>termOut := [TermError (Error ''No command bad'') False, Log ''hi'']\<rparr>)"
proof -
  have h: "handle (\<lambda>input st. Some (None, st)) None (rootCommand initialState) (splitArgs ''bad'') initialState
     = Some (Some (Error ''No command bad''), initialState)"
    by (simp add: evals)
  have w: "handleWalk None (rootCommand initialState) (splitArgs ''bad'') = Inl (Error ''No command bad'')"
    by (simp add: evals)
  have t: "\<forall>input s. (\<lambda>input st. Some (None, st)) input s \<noteq> (None :: (thrown option \<times> state) option)"
    by simp
  from failure_caught_and_reported_with_message [OF h, of "[''print hi'']"] w h t show ?thesis
    by (simp add: evals)
qed

text \<open>
  Claim C4, as the specification has it: once \<open>go\<close> is an alias of \<open>move north\<close>,
  dispatching the tokens \<open>go fast\<close> behaves as dispatching \<open>move north fast\<close>. The
  handler of the alias does not handle the expanded tokens: it calls \<open>sendCommand\<close> on
  the joined line. In the middle of a line, when the input is disabled, \<open>handle\<close> on
  \<open>go fast\<close> leaves it enabled, and on \<open>move north fast\<close> leaves it disabled. Where
  there is no command \<open>move\<close>, \<open>handle\<close> on \<open>go fast\<close> returns with the error
  printed by the inner call, and on \<open>move north fast\<close> it throws.
\<close>

theorem alias_dispatch_differs_from_expansion:
  "handle (sendCommand 0) None (rootCommand goState) [''go'', ''fast'']
      (goState\<lparr>termEnabled := False\<rparr>)
     = Some (None, goState\<lparr>termOut := [Log ''north fast''], termEnabled := True\<rparr>)
   \<and> handle (sendCommand 0) None (rootCommand goState) [''move'', ''north'', ''fast'']
      (goState\<lparr>termEnabled := False\<rparr>)
     = Some (None, goState\<lparr>termOut := [Log ''north fast''], termEnabled := False\<rparr>)
   \<and> handle (sendCommand 0) None (rootCommand goOnlyState) [''go'', ''fast''] goOnlyState
     = Some (None, goOnlyState\<lparr>termOut := [TermError (Error ''No command move'') False]\<rparr>)
   \<and> handle (sendCommand 0) None (rootCommand goOnlyState) [''move'', ''north'', ''fast'']
        goOnlyState
     = Some (Some (Error ''No command move''), goOnlyState)
   \<and> handle (sendCommand 0) None (rootCommand goOnlyState) [''go'', ''fast''] goOnlyState
     \<noteq> handle (sendCommand 0) None (rootCommand goOnlyState) [''move'', ''north'', ''fast'']
          goOnlyState"
  by (simp add: evals)

text \<open>
  Claim C4, amended. \<open>addCustomCommand(n, expansion)\<close> registers under the root a command
  \<open>n\<close> whose handler holds the expansion. In any later state \<open>s\<close> in which that command
  is still the one registered, handling the tokens \<open>n # runArgs\<close> calls \<open>sendCommand\<close>
  again, in the state \<open>s\<close> of the call, with the expansion and the arguments joined by
  spaces into one line; a failure of the expansion is caught inside that call and does
  not reach the caller of the alias. When the tokens typed are plain and the line typed is
  one statement, submitting the alias with its arguments is the same as submitting the
  expanded line; and when the expanded tokens are plain and make one statement, that line
  is tokenized into exactly \<open>expansion @ runArgs\<close>. So the line \<open>go fast\<close> behaves
  as the line \<open>move north fast\<close>.
\<close>

theorem alias_round_trip:
  assumes defined: "addCustomCommand n expansion st = (None, st')"
      and later: "getChild (children (rootCommand s)) n = getChild (children (rootCommand st')) n"
      and first: "firstArg runArgs \<notin> set objectPrototypeKeys"
  shows "getChild (children (rootCommand st')) n
           = Own (Command n (Some []) (Some []) (Some (Alias expansion)) [])
         \<and> handle reenter None (rootCommand s) (n # runArgs) s
           = reenter (jsJoin '' '' (expansion @ runArgs)) s
         \<and> (\<not> isl (findCommand (rootCommand s)
                       (filter (\<lambda>x. length x > 0) (jsSplit '' '' (jsJoin '' '' (expansion @ runArgs)))))
            \<longrightarrow> (\<forall>r s'. handle (sendCommand fuel) None (rootCommand s) (n # runArgs) s = Some (r, s')
                         \<longrightarrow> r = None))
         \<and> (list_all plainToken (n # runArgs)
              \<and> \<not> sublist ''&&'' (jsJoin '' '' (n # runArgs))
              \<and> \<not> prefix ''command'' (jsJoin '' '' (n # runArgs))
              \<and> \<not> isl (findCommand (rootCommand s)
                       (filter (\<lambda>x. length x > 0) (jsSplit '' '' (jsJoin '' '' (expansion @ runArgs)))))
            \<longrightarrow> sendCommand (Suc fuel) (jsJoin '' '' (n # runArgs)) s
                  = sendCommand fuel (jsJoin '' '' (expansion @ runArgs)) s)
         \<and> (list_all plainToken (expansion @ runArgs)
              \<and> \<not> sublist ''&&'' (jsJoin '' '' (expansion @ runArgs))
              \<and> \<not> prefix ''command'' (jsJoin '' '' (expansion @ runArgs))
            \<longrightarrow> coms (jsJoin '' '' (expansion @ runArgs)) = [jsJoin '' '' (expansion @ runArgs)]
                \<and> splitArgs (jsJoin '' '' (expansion @ runArgs)) = expansion @ runArgs)"
proof (intro conjI impI)
  let ?node = "Command n (Some []) (Some []) (Some (Alias expansion)) []"
  let ?inner = "jsJoin '' '' (expansion @ runArgs)"
  let ?outer = "jsJoin '' '' (n # runArgs)"
  show registered: "getChild (children (rootCommand st')) n = Own ?node"
    using defined by (rule addCustomCommand_defines)
  with later have child: "getChild (children (rootCommand s)) n = Own ?node"
    by simp
  have walk: "handleWalk None (rootCommand s) (n # runArgs) = Inr (Alias expansion, runArgs)"
    using child first by (rule handleWalk_alias)
  show called: "handle reenter None (rootCommand s) (n # runArgs) s' = reenter ?inner s'" for reenter s'
    by (simp add: handle_def walk invoke_def)
  {
    assume "\<not> isl (findCommand (rootCommand s)
                       (filter (\<lambda>x. length x > 0) (jsSplit '' '' ?inner)))"
    then obtain c where pre: "findCommand (rootCommand s)
                       (filter (\<lambda>x. length x > 0) (jsSplit '' '' ?inner)) = Inr c"
      by (cases "findCommand (rootCommand s) (filter (\<lambda>x. length x > 0) (jsSplit '' '' ?inner))") auto
    show "\<forall>r s'. handle (sendCommand fuel) None (rootCommand s) (n # runArgs) s = Some (r, s')
                         \<longrightarrow> r = None"
      using pre by (auto simp: called dest: sendCommand_result)
  }
  {
    assume hyps: "list_all plainToken (n # runArgs)
              \<and> \<not> sublist ''&&'' ?outer
              \<and> \<not> prefix ''command'' ?outer
              \<and> \<not> isl (findCommand (rootCommand s)
                       (filter (\<lambda>x. length x > 0) (jsSplit '' '' ?inner)))"
    then obtain c where pre: "findCommand (rootCommand s)
                       (filter (\<lambda>x. length x > 0) (jsSplit '' '' ?inner)) = Inr c"
      by (cases "findCommand (rootCommand s) (filter (\<lambda>x. length x > 0) (jsSplit '' '' ?inner))") auto
    from hyps have words: "filter (\<lambda>x. length x > 0) (jsSplit '' '' ?outer) = n # runArgs"
      by (simp only: words_join)
    from hyps have tokens: "splitArgs ?outer = n # runArgs"
      by (simp only: splitArgs_join)
    from hyps have one: "coms ?outer = [?outer]"
      by (simp add: coms_def jsSplit_no_separator del: jsJoin.simps)
    have outerpre: "findCommand (rootCommand s) (n # runArgs) = Inr ?node"
      using child first by (rule findCommand_alias)
    have flag: "sendCommand fuel ?inner (s\<lparr>termEnabled := False\<rparr>) = sendCommand fuel ?inner s"
      using pre by (rule sendCommand_flag)
    have body: "sendCommand (Suc fuel) ?outer s
       = (case sendCommand fuel ?inner s of
            None \<Rightarrow> None
          | Some (None, s') \<Rightarrow> Some (None, s'\<lparr>termEnabled := True\<rparr>)
          | Some (Some e, s') \<Rightarrow> Some (None, (catch e s')\<lparr>termEnabled := True\<rparr>))"
      by (simp add: sendCommandBody_def words outerpre one tokens handle_def walk invoke_def flag
               del: jsJoin.simps length_greater_0_conv findCommand.simps split: option.splits)
    show "sendCommand (Suc fuel) ?outer s = sendCommand fuel ?inner s"
    proof (cases "sendCommand fuel ?inner s")
      case None
      with body show ?thesis by simp
    next
      case (Some rs)
      obtain r s' where rs: "rs = (r, s')" by (cases rs)
      with Some pre have "r = None \<and> termEnabled s'"
        by (auto dest: sendCommand_result)
      with Some rs body show ?thesis
        by (simp add: termEnabled_already)
    qed
  }
  {
    assume hyps: "list_all plainToken (expansion @ runArgs)
              \<and> \<not> sublist ''&&'' ?inner \<and> \<not> prefix ''command'' ?inner"
    then show "coms ?inner = [?inner]"
      by (simp add: coms_def jsSplit_no_separator)
    from hyps show "splitArgs ?inner = expansion @ runArgs"
      by (simp only: splitArgs_join)
  }
qed

theorem alias_round_trip_witness:
  "addCustomCommand ''go'' [''move'', ''north''] moveState = (None, goState)
   \<and> handle (sendCommand 0) None (rootCommand goState) [''go'', ''fast''] goState
       = sendCommand 0 ''move north fast'' goState
   \<and> sendCommand 1 ''go fast'' goState = sendCommand 0 ''move north fast'' goState
   \<and> sendCommand 0 ''move north fast'' goState = Some (None, goState\<lparr>termOut := [Log ''north fast'']\<rparr>)
   \<and> splitArgs ''move north fast'' = [''move'', ''north'', ''fast'']"
proof -
  have d: "addCustomCommand ''go'' [''move'', ''north''] moveState = (None, goState)"
    by (simp add: evals)
  have l: "getChild (children (rootCommand goState)) ''go'' = getChild (children (rootCommand goState)) ''go''"
    by simp
  have f: "firstArg [''fast''] \<notin> set objectPrototypeKeys"
    by (simp add: evals)
  have e: "sendCommand 0 ''move north fast'' goState = Some (None, goState\<lparr>termOut := [Log ''north fast'']\<rparr>)"
    by (simp add: evals)
  have p: "\<not> isl (findCommand (rootCommand goState)
             (filter (\<lambda>x. length x > 0) (jsSplit '' '' (jsJoin '' '' ([''move'', ''north''] @ [''fast''])))))"
    by (simp add: evals)
  from alias_round_trip [OF d l f, of "sendCommand 0" 0] p d e show ?thesis
    by (simp add: plainToken_def dquote_def sublist_Cons_right)
qed

text \<open>
  Resolution is greedy on the names that \<open>this.children[key]\<close> reads as a command or as
  \<open>undefined\<close>.
\<close>

lemma findCommand_greedy:
  "findCommand this [] = Inr this"
  "getChild (children this) t = Own child \<Longrightarrow> findCommand this (t # ts) = findCommand child ts"
  "getChild (children this) t = Undefined \<Longrightarrow> findCommand this (t # ts) = Inr this"
  by simp_all

lemma handleWalk_greedy:
  "getChild (children this) t = Own child \<Longrightarrow>
     handleWalk ctx this (t # ts) = handleWalk (childCtx ctx (name child)) child ts"
  "getChild (children this) t = Undefined \<Longrightarrow> handler this = Some h \<Longrightarrow>
     handleWalk ctx this (t # ts) = Inr (h, t # ts)"
  by (subst handleWalk.simps, simp add: firstArg_def)+

text \<open>
  Claim C5. The specification says that a first token that names no child leaves the
  current node as the result. A command created by \<open>addCommand\<close> has no child named
  \<open>toString\<close>, but \<open>this.children['toString']\<close> is the function inherited from
  \<open>Object.prototype\<close>: \<open>findCommand\<close> calls \<open>findCommand\<close> on it, \<open>handle\<close> calls
  \<open>handle\<close> on it, and both raise a \<open>TypeError\<close> instead of stopping at the node.
  The tokens \<open>print toString\<close> do not reach the handler of \<open>print\<close>.
\<close>

theorem resolution_fails_on_inherited_name:
  "findCommand (Command n ad de h []) (''toString'' # ts) = Inl TypeError
   \<and> handleWalk ctx (Command n ad de h []) (''toString'' # ts) = Inl TypeError
   \<and> findCommand initialRoot [''print'', ''toString''] = Inl TypeError
   \<and> handle reenter None initialRoot [''print'', ''toString''] initialState
       = Some (Some TypeError, initialState)"
  by (simp add: evals)

text \<open>
  The loop of \<open>sendCommand\<close> takes the statements in order: a statement is tokenized and
  handled in the state that the statements before it have left, and the statements after
  it are run whether it completed or threw.
\<close>

lemma forComs_in_order:
  "forComs reenter (before @ com # after) st =
     (case forComs reenter before st of
        None \<Rightarrow> None
      | Some st1 \<Rightarrow>
          (case handle reenter None (rootCommand st1) (splitArgs com) st1 of
             None \<Rightarrow> None
           | Some (None, st2) \<Rightarrow> forComs reenter after st2
           | Some (Some error, st2) \<Rightarrow> forComs reenter after (catch error st2)))"
  by (simp add: forComs_append split: option.splits)

text \<open>
  When its first call of \<open>findCommand\<close> returns, \<open>sendCommand\<close> runs the loop on the
  statements of the line.
\<close>

lemma sendCommandBody_statements:
  "findCommand (rootCommand st) (filter (\<lambda>x. length x > 0) (jsSplit '' '' input)) = Inr c \<Longrightarrow>
     sendCommandBody reenter input st
       = map_option (\<lambda>st'. (None, st'\<lparr>termEnabled := True\<rparr>))
           (forComs reenter (coms input) (st\<lparr>termEnabled := False\<rparr>))"
  by (simp add: sendCommandBody_def split: option.splits)

text \<open>The line \<open>bad && print hi\<close> reports the unknown command and then prints \<open>hi\<close>.\<close>

lemma bad_then_print:
  "sendCommand fuel ''bad && print hi'' initialState
     = Some (None, initialState\<lparr>termOut := [TermError (Error ''No command bad'') False, Log ''hi'']\<rparr>)"
  by (cases fuel) (simp_all add: evals)

text \<open>
  Claim C6. The claim is that every statement of a line is dispatched, whatever happens
  to the statements before it. The line \<open>print toString && print hi\<close> has two
  statements. The call of \<open>findCommand\<close> that opens \<open>sendCommand\<close> is given the words
  of the whole line and stands before the loop and its \<open>try\<close>: on \<open>print\<close>,
  \<open>toString\<close> it raises the \<open>TypeError\<close> of claim C9, which leaves \<open>sendCommand\<close>.
  No statement is dispatched: \<open>hi\<close> is not printed, and no error is reported.
\<close>

theorem chained_line_stopped_before_its_statements:
  "coms ''print toString && print hi'' = [''print toString '', '' print hi'']
   \<and> sendCommand fuel ''print toString && print hi'' initialState
       = Some (Some TypeError, initialState)"
  by (cases fuel) (simp_all add: evals)

text \<open>
  Claim C7. A line that begins with the characters \<open>command\<close> (the test is
  \<open>input.startsWith('command')\<close>) is one statement, whatever it holds. Any other line
  is split at \<open>&&\<close>: the statements joined by \<open>&&\<close> give the line back, and no
  statement holds \<open>&&\<close>.
\<close>

theorem coms_splits_on_chain_separator:
  "(prefix ''command'' input \<longrightarrow> coms input = [input])
   \<and> (\<not> prefix ''command'' input \<longrightarrow>
        coms input = jsSplit ''&&'' input
        \<and> jsJoin ''&&'' (coms input) = input
        \<and> (\<forall>s \<in> set (coms input). \<not> sublist ''&&'' s))"
  by (auto simp: coms_def jsJoin_jsSplit dest: jsSplit_pieces_free [rotated])

theorem coms_splits_on_chain_separator_witness:
  "prefix ''command'' ''command ab print a && print b''
   \<and> coms ''command ab print a && print b'' = [''command ab print a && print b'']
   \<and> \<not> prefix ''command'' ''print a && print b''
   \<and> coms ''print a && print b'' = [''print a '', '' print b'']
   \<and> jsJoin ''&&'' [''print a '', '' print b''] = ''print a && print b''"
  using coms_splits_on_chain_separator [of "''command ab print a && print b''"]
        coms_splits_on_chain_separator [of "''print a && print b''"]
  by (simp add: coms_def)

text \<open>
  \<open>addCommand\<close> refuses a name for which \<open>this.children[name]\<close> is not \<open>undefined\<close>,
  and otherwise creates exactly one child and changes nothing else.
\<close>

lemma addCommand_refused:
  "\<not> isUndefined (getChild (children this) n) \<Longrightarrow>
     addCommand ctx this n ad de h
       = Inl (Error (''Multiple commands: '' @ fullname ctx this @ ''#'' @ n))"
  by (simp add: addCommand_def)

lemma addCommand_registered:
  assumes "isUndefined (getChild (children this) n)"
  shows "addCommand ctx this n ad de h
           = Inr (Command n ad de h [],
                  Command (name this) (argDesc this) (description this) (handler this)
                    (insertOwn (children this) n (Command n ad de h [])))"
    and "set (insertOwn (children this) n (Command n ad de h []))
           = insert (n, Command n ad de h []) (set (children this))"
    and "length (insertOwn (children this) n (Command n ad de h [])) = Suc (length (children this))"
    and "getChild (insertOwn (children this) n (Command n ad de h [])) n = Own (Command n ad de h [])"
  using assms
  by (simp_all add: addCommand_def Let_def set_insertOwn length_insertOwn getChild_inserted)

text \<open>
  Claim C8. The claim is that a name registered under one parent can be registered
  under another. \<open>toString\<close> has been registered nowhere, but
  \<open>this.children['toString']\<close> is the function inherited from \<open>Object.prototype\<close>, so
  \<open>addCommand\<close> takes the name for a duplicate under every parent: under the root, under
  a command \<open>x\<close> without children, and when \<open>addCustomCommand\<close> defines an alias of
  that name.
\<close>

theorem addCommand_refuses_inherited_name:
  "addCommand None emptyRoot ''toString'' ad de h
     = Inl (Error ''Multiple commands: #toString'')
   \<and> addCommand (Some ''x'') (Command ''x'' ad' de' h' []) ''toString'' ad de h
     = Inl (Error ''Multiple commands: x#toString'')
   \<and> fst (addCustomCommand ''toString'' [''print'', ''hi''] initialState)
     = Some (Error ''Multiple commands: #toString'')"
  by (simp add: evals)

text \<open>
  Claim C9. The claim is that \<open>findCommand\<close> returns a command for every list of
  tokens. It never returns \<open>undefined\<close>, but for the name of a member of
  \<open>Object.prototype\<close> it raises a \<open>TypeError\<close>. In \<open>sendCommand\<close> the call stands
  before the \<open>try\<close>: for the line \<open>constructor\<close> the exception leaves
  \<open>sendCommand\<close>, nothing is dispatched and nothing is printed.
\<close>

theorem sendCommand_inherited_name_escapes:
  "findCommand initialRoot [''constructor''] = Inl TypeError
   \<and> sendCommand fuel ''constructor'' initialState = Some (Some TypeError, initialState)"
  by (cases fuel) (simp_all add: evals)

text \<open>
  Claim C10. The line is split before any statement is tokenized, and the split does
  not look at quotes: whatever stands before and after an occurrence of \<open>&&\<close> (an open
  quote, for instance), a line that does not begin with \<open>command\<close> has at least two
  statements, none of which holds \<open>&&\<close>; the leftmost occurrence ends the first
  statement.
\<close>

theorem chain_separator_splits_inside_quotes:
  assumes "\<not> prefix ''command'' (before @ ''&&'' @ after)"
  shows "2 \<le> length (coms (before @ ''&&'' @ after))
         \<and> (\<forall>s \<in> set (coms (before @ ''&&'' @ after)). \<not> sublist ''&&'' s)
         \<and> (\<not> sublist ''&&'' (before @ ''&'') \<longrightarrow>
               coms (before @ ''&&'' @ after) = before # jsSplit ''&&'' after)"
proof (intro conjI impI)
  let ?line = "before @ ''&&'' @ after"
  have c: "coms ?line = jsSplit ''&&'' ?line"
    using assms by (simp add: coms_def)
  have "sublist ''&&'' ?line"
    by (rule sublist_appendI)
  then show "2 \<le> length (coms ?line)"
    unfolding c by (intro jsSplit_separator_splits) simp_all
  show "\<forall>s \<in> set (coms ?line). \<not> sublist ''&&'' s"
    unfolding c by (auto dest: jsSplit_pieces_free [rotated])
  assume first: "\<not> sublist ''&&'' (before @ ''&'')"
  then have "jsSplit ''&&'' (before @ ''&&'' @ after) = before # jsSplit ''&&'' after"
  proof (induction before)
    case Nil
    show ?case by simp
  next
    case (Cons b bs)
    from Cons.prems have np: "\<not> prefix ''&&'' (b # bs @ ''&'')" and ns: "\<not> sublist ''&&'' (bs @ ''&'')"
      by (auto simp: sublist_Cons_right)
    from np have "\<not> prefix ''&&'' (b # bs @ ''&&'' @ after)"
      by (cases bs) auto
    with Cons.IH [OF ns] show ?case
      by simp
  qed
  then show "coms ?line = before # jsSplit ''&&'' after"
    unfolding c .
qed

theorem chain_separator_splits_inside_quotes_witness:
  "\<not> prefix ''command'' (''print '' @ [dquote] @ ''a '' @ ''&&'' @ '' b'' @ [dquote])
   \<and> coms (''print '' @ [dquote] @ ''a '' @ ''&&'' @ '' b'' @ [dquote])
       = [''print '' @ [dquote] @ ''a '', '' b'' @ [dquote]]
   \<and> map splitArgs (coms (''print '' @ [dquote] @ ''a '' @ ''&&'' @ '' b'' @ [dquote]))
       = [[''print'', ''a ''], [''b'']]"
  using chain_separator_splits_inside_quotes [of "''print '' @ [dquote] @ ''a ''" "'' b'' @ [dquote]"]
  by (simp add: coms_def splitArgs_def dquote_def backslash_def sublist_Cons_right)

end
